theory Spec2Isabelle
  imports Main "HOL-Library.AList"
begin

section \<open>Python strings\<close>

text \<open>
  Text is a \<^typ>\<open>string\<close>. The helpers below are the string operations of Python that
  the tools call: \<^verbatim>\<open>str.strip()\<close>, \<^verbatim>\<open>str.split()\<close>, \<^verbatim>\<open>str.lower()\<close>, the substring test
  and \<^verbatim>\<open>' '.join\<close>. White space is the ASCII white space of \<^verbatim>\<open>str.isspace\<close>.
\<close>

definition NL :: char where
  "NL = CHR 0x0A"

definition isspace :: "char \<Rightarrow> bool" where
  "isspace c = (c \<in> {CHR 0x09, CHR 0x0A, CHR 0x0B, CHR 0x0C, CHR 0x0D,
                      CHR 0x1C, CHR 0x1D, CHR 0x1E, CHR 0x1F, CHR 0x20})"

definition py_strip :: "string \<Rightarrow> string" where
  "py_strip s = rev (dropWhile isspace (rev (dropWhile isspace s)))"

fun split_acc :: "string \<Rightarrow> string \<Rightarrow> string list" where
  "split_acc w [] = (if w = [] then [] else [rev w])"
| "split_acc w (c # cs) =
     (if isspace c then (if w = [] then split_acc [] cs else rev w # split_acc [] cs)
      else split_acc (c # w) cs)"

definition py_split :: "string \<Rightarrow> string list" where
  "py_split s = split_acc [] s"

fun join_space :: "string list \<Rightarrow> string" where
  "join_space [] = []"
| "join_space [w] = w"
| "join_space (w # ws) = w @ CHR 0x20 # join_space ws"



fun contains :: "string \<Rightarrow> string \<Rightarrow> bool" where
  "contains sub [] = (sub = [])"
| "contains sub (c # cs) = (take (length sub) (c # cs) = sub \<or> contains sub cs)"


text \<open>
  \<^verbatim>\<open>re.sub(r'\n{3,}', '\n\n', s)\<close>: scanning from the left, a greedy match takes a whole
  run of three or more newlines and writes two; any other character is copied.
\<close>

function collapse :: "string \<Rightarrow> string" where
  "collapse [] = []"
| "collapse (c # cs) =
     (if c = NL \<and> 3 \<le> length (takeWhile (\<lambda>x. x = NL) (c # cs))
      then NL # NL # collapse (dropWhile (\<lambda>x. x = NL) cs)
      else c # collapse cs)"
  by pat_completeness auto
termination
  by (relation "measure length") (auto simp: length_dropWhile_le le_imp_less_Suc)

declare collapse.simps(2) [simp del]

text \<open>Length of the run of newlines a text starts with, and texts without a run of three.\<close>

definition lead :: "string \<Rightarrow> nat" where
  "lead xs = length (takeWhile (\<lambda>x. x = NL) xs)"

fun calm :: "string \<Rightarrow> bool" where
  "calm [] = True"
| "calm (c # cs) = (lead (c # cs) < 3 \<and> calm cs)"


section \<open>The browser, its tabs and elements (DrissionPage)\<close>

text \<open>
  The browser library is outside the repository: what it answers is data of the model.
  A call that may raise has a value of type \<open>exn + 'a\<close>, \<open>Inl e\<close> being the exception
  whose \<^verbatim>\<open>str(e)\<close> is \<open>e\<close>.
\<close>

type_synonym exn = string

datatype element =
  Element (el_tag: string) (el_text: string) (el_attrs: "(string \<times> string) list")
          (el_checked: bool) (el_kids: "element list")

fun el_descendants :: "element \<Rightarrow> element list" where
  "el_descendants (Element t x a c ks) = concat (map (\<lambda>k. k # el_descendants k) ks)"

text \<open>\<^verbatim>\<open>e.eles('tag:t')\<close> and \<^verbatim>\<open>e.ele('tag:t')\<close>: the descendants with that tag, in document order.\<close>

definition eles_tag :: "string \<Rightarrow> element \<Rightarrow> element list" where
  "eles_tag t e = filter (\<lambda>d. el_tag d = t) (el_descendants e)"

definition ele_tag :: "string \<Rightarrow> element \<Rightarrow> element option" where
  "ele_tag t e = (case eles_tag t e of [] \<Rightarrow> None | d # _ \<Rightarrow> Some d)"

text \<open>What a tool does to an element, named by the selector that found the element.\<close>

datatype action = Click string | Clear string | Input string string | Select string string

record tab =
  tab_url :: "exn + string"
  tab_title :: "exn + string"
  tab_html :: "exn + string"
  tab_text :: "exn + string"
  tab_ele :: "string \<Rightarrow> exn + element option"
  tab_eles :: "string \<Rightarrow> exn + element list"
  tab_scrollHeight :: "exn + int"
  tab_act :: "action \<Rightarrow> exn option"

record chromium =
  quit_raises :: "exn option"
  latest_tab :: "exn + tab option"
  get_tabs :: "(exn + nat) option"


section \<open>browser.py: the session manager\<close>

record BrowserManager =
  browser :: "chromium option"
  current_tab :: "tab option"


datatype status =
  NotInitialised
| NoActiveTab
| RunningOk string string nat
| StatusFailed exn


definition get_current_tab :: "BrowserManager \<Rightarrow> (exn + tab option) \<times> BrowserManager" where
  "get_current_tab m =
     (case browser m of
        None \<Rightarrow> (Inr None, m)
      | Some b \<Rightarrow>
          (case current_tab m of
             Some t \<Rightarrow> (Inr (Some t), m)
           | None \<Rightarrow>
               (case latest_tab b of
                  Inl e \<Rightarrow> (Inl e, m)
                | Inr t \<Rightarrow> (Inr t, m\<lparr>current_tab := t\<rparr>))))"


definition get_status :: "BrowserManager \<Rightarrow> status \<times> BrowserManager" where
  "get_status m =
     (case browser m of
        None \<Rightarrow> (NotInitialised, m)
      | Some b \<Rightarrow>
          (case get_current_tab m of
             (Inl e, m') \<Rightarrow> (StatusFailed e, m')
           | (Inr None, m') \<Rightarrow> (NoActiveTab, m')
           | (Inr (Some t), m') \<Rightarrow>
               (let tab_count = (case get_tabs b of
                                   None \<Rightarrow> 1
                                 | Some (Inl e) \<Rightarrow> 1
                                 | Some (Inr n) \<Rightarrow> n)
                in case tab_url t of
                     Inl e \<Rightarrow> (StatusFailed e, m')
                   | Inr u \<Rightarrow>
                       (case tab_title t of
                          Inl e \<Rightarrow> (StatusFailed e, m')
                        | Inr ti \<Rightarrow> (RunningOk u ti tab_count, m')))))"

datatype init_result = AlreadyRunning status | Initialised status | InitFailed exn

fun init_success :: "init_result \<Rightarrow> bool" where
  "init_success (AlreadyRunning s) = True"
| "init_success (Initialised s) = True"
| "init_success (InitFailed e) = False"

text \<open>\<open>launch\<close> is what \<^verbatim>\<open>Chromium(addr_or_opts=options)\<close> gives for the options of the call.\<close>

definition init_browser ::
  "(exn + chromium) \<Rightarrow> BrowserManager \<Rightarrow> init_result \<times> BrowserManager" where
  "init_browser launch m =
     (case browser m of
        Some b \<Rightarrow> (AlreadyRunning (fst (get_status m)), snd (get_status m))
      | None \<Rightarrow>
          (case launch of
             Inl e \<Rightarrow> (InitFailed e, m)
           | Inr b \<Rightarrow>
               (let m1 = m\<lparr>browser := Some b\<rparr>
                in case latest_tab b of
                     Inl e \<Rightarrow> (InitFailed e, m1)
                   | Inr t \<Rightarrow>
                       (let m2 = m1\<lparr>current_tab := t\<rparr>
                        in (Initialised (fst (get_status m2)), snd (get_status m2))))))"




definition is_running :: "BrowserManager \<Rightarrow> bool" where
  "is_running m = (browser m \<noteq> None)"

definition ensure_browser :: "(exn + chromium) \<Rightarrow> BrowserManager \<Rightarrow> bool \<times> BrowserManager" where
  "ensure_browser launch m =
     (if \<not> is_running m
      then (init_success (fst (init_browser launch m)), snd (init_browser launch m))
      else (True, m))"


section \<open>markdown.py: cleaning, main content, conversion\<close>

subsection \<open>The parsed document (BeautifulSoup)\<close>

text \<open>
  A parsed document is the list of its top nodes. Every tag carries the identity of its
  object, \<open>nid\<close>: \<^verbatim>\<open>decompose()\<close> acts on an object, not on a value.
\<close>

datatype node =
  Tag (nid: nat) (tag_name: string) (attrs: "(string \<times> string) list") (contents: "node list")
| NavigableString string

fun descendants :: "node \<Rightarrow> node list" where
  "descendants (Tag i n a ks) = concat (map (\<lambda>k. k # descendants k) ks)"
| "descendants (NavigableString s) = []"

definition all_nodes :: "node list \<Rightarrow> node list" where
  "all_nodes soup = concat (map (\<lambda>k. k # descendants k) soup)"

text \<open>
  The CSS selectors the module uses: a tag name, \<^verbatim>\<open>[a="v"]\<close>, \<^verbatim>\<open>[a*="v"]\<close>, \<^verbatim>\<open>.c\<close> and \<^verbatim>\<open>#i\<close>.
  The class attribute is a list of names; an attribute selector sees them joined by
  single spaces.
\<close>

datatype selector =
  TagSel string
| AttrEq string string
| AttrContains string string
| ClassSel string
| IdSel string

definition attr_value :: "(string \<times> string) list \<Rightarrow> string \<Rightarrow> string option" where
  "attr_value a k =
     (case map_of a k of
        None \<Rightarrow> None
      | Some v \<Rightarrow> Some (if k = ''class'' then join_space (py_split v) else v))"

fun matches :: "selector \<Rightarrow> node \<Rightarrow> bool" where
  "matches sel (NavigableString s) = False"
| "matches (TagSel t) (Tag i n a ks) = (n = t)"
| "matches (AttrEq k v) (Tag i n a ks) = (attr_value a k = Some v)"
| "matches (AttrContains k v) (Tag i n a ks) =
     (case attr_value a k of None \<Rightarrow> False | Some w \<Rightarrow> contains v w)"
| "matches (ClassSel c) (Tag i n a ks) =
     (case map_of a ''class'' of None \<Rightarrow> False | Some v \<Rightarrow> c \<in> set (py_split v))"
| "matches (IdSel j) (Tag i n a ks) = (map_of a ''id'' = Some j)"

definition select :: "selector \<Rightarrow> node list \<Rightarrow> node list" where
  "select sel soup = filter (matches sel) (all_nodes soup)"

definition select_one :: "selector \<Rightarrow> node list \<Rightarrow> node option" where
  "select_one sel soup = (case select sel soup of [] \<Rightarrow> None | m # _ \<Rightarrow> Some m)"

text \<open>
  \<^verbatim>\<open>element.decompose()\<close> takes the object and everything below it out of the document.
  On an object that an earlier \<^verbatim>\<open>decompose()\<close> already took out, it finds nothing to
  take out.
\<close>

fun is_object :: "nat \<Rightarrow> node \<Rightarrow> bool" where
  "is_object i (Tag j n a ks) = (j = i)"
| "is_object i (NavigableString s) = False"

fun without :: "nat \<Rightarrow> node \<Rightarrow> node" where
  "without i (Tag j n a ks) = Tag j n a (map (without i) (filter (\<lambda>k. \<not> is_object i k) ks))"
| "without i (NavigableString s) = NavigableString s"

fun decompose :: "node \<Rightarrow> node list \<Rightarrow> node list" where
  "decompose (Tag i n a ks) soup = map (without i) (filter (\<lambda>k. \<not> is_object i k) soup)"
| "decompose (NavigableString s) soup = soup"

text \<open>The parser and the printer of the library: \<^verbatim>\<open>BeautifulSoup(html, 'lxml')\<close> and \<^verbatim>\<open>str\<close>.\<close>

record bs4 =
  bs_parse :: "string \<Rightarrow> node list"
  str_tag :: "node \<Rightarrow> string"
  str_soup :: "node list \<Rightarrow> string"

subsection \<open>\<^verbatim>\<open>_clean_html\<close>\<close>

definition ad_selectors :: "selector list" where
  "ad_selectors =
     [TagSel ''script'', TagSel ''style'', TagSel ''iframe'', TagSel ''noscript'',
      AttrContains ''class'' ''ad-'', AttrContains ''class'' ''advertisement'',
      AttrContains ''id'' ''ad-'', AttrContains ''id'' ''advertisement'',
      ClassSel ''sidebar'', ClassSel ''footer'', ClassSel ''header-ad'',
      AttrContains ''class'' ''social-share'', AttrContains ''class'' ''cookie'']"

text \<open>The inner loop: \<^verbatim>\<open>for element in soup.select(selector): element.decompose()\<close>.\<close>

definition remove_selected :: "selector \<Rightarrow> node list \<Rightarrow> node list" where
  "remove_selected sel soup = fold decompose (select sel soup) soup"

definition clean_soup :: "selector list \<Rightarrow> node list \<Rightarrow> node list" where
  "clean_soup sels soup = fold remove_selected sels soup"

definition clean_html :: "bs4 \<Rightarrow> string \<Rightarrow> bool \<Rightarrow> string" where
  "clean_html bs html remove_ads =
     (let soup = bs_parse bs html
      in str_soup bs (if remove_ads then clean_soup ad_selectors soup else soup))"

subsection \<open>\<^verbatim>\<open>_extract_main_content\<close>\<close>

definition main_selectors :: "selector list" where
  "main_selectors =
     [TagSel ''main'', TagSel ''article'', AttrEq ''role'' ''main'',
      ClassSel ''main-content'', IdSel ''main-content'',
      ClassSel ''content'', IdSel ''content'',
      ClassSel ''post-content'', ClassSel ''article-content'']"

text \<open>The loop over the selectors: the first one with a match returns that match.\<close>

fun first_main :: "node list \<Rightarrow> selector list \<Rightarrow> node option" where
  "first_main soup [] = None"
| "first_main soup (sel # sels) =
     (case select_one sel soup of
        Some m \<Rightarrow> Some m
      | None \<Rightarrow> first_main soup sels)"

definition extract_main_content :: "bs4 \<Rightarrow> string \<Rightarrow> string" where
  "extract_main_content bs html =
     (let soup = bs_parse bs html
      in case first_main soup main_selectors of
           Some m \<Rightarrow> str_tag bs m
         | None \<Rightarrow>
             (case select_one (TagSel ''body'') soup of
                Some body \<Rightarrow> str_tag bs body
              | None \<Rightarrow> html))"

subsection \<open>\<^verbatim>\<open>page_to_markdown\<close> and \<^verbatim>\<open>get_page_content\<close>\<close>

text \<open>
  What the module finds around it: which converters were imported, what they answer
  (\<open>html2text\<close> takes \<^verbatim>\<open>ignore_images\<close> first), the HTML library, \<^verbatim>\<open>Path(p).stem\<close>,
  \<^verbatim>\<open>Path(p).absolute()\<close>, and whether making the directory and writing the file raises.
  The converters and the HTML library are taken to return a value; the properties of
  the tab and the file system may raise.
\<close>

record files =
  path_stem :: "string \<Rightarrow> string"
  path_absolute :: "string \<Rightarrow> string"
  write_raises :: "string \<Rightarrow> exn option"

record md_env =
  USE_MARKDOWNIFY :: bool
  USE_HTML2TEXT :: bool
  markdownify :: "string \<Rightarrow> string"
  html2text :: "bool \<Rightarrow> string \<Rightarrow> string"
  soup_lib :: bs4
  file_lib :: files

text \<open>
  The failures of the tools, by the message the source gives them: the browser cannot be
  initialised, no tab, no HTML, no conversion library, a named converter not installed,
  an unknown converter or format, and the exception caught at the end of each tool.
\<close>

datatype error =
  CannotInitBrowser
| NoTabAvailable
| NoPageHtml
| NoMarkdownLibrary
| MarkdownifyNotInstalled
| Html2textNotInstalled
| UnsupportedConverter string
| UnsupportedFormat string
| TableNotFound string
| Caught exn

record md_stats =
  stat_lines :: nat
  stat_characters :: nat
  stat_words :: nat

record md_saved =
  saved_path :: string
  saved_url :: string
  saved_title :: string
  saved_converter :: string
  saved_stats :: md_stats

text \<open>The label of the third line of the header, four CJK characters, in UTF-8.\<close>

definition time_label :: string where
  "time_label = [CHR 0xE8, CHR 0xBD, CHR 0xAC, CHR 0xE6, CHR 0x8D, CHR 0xA2,
                 CHR 0xE6, CHR 0x97, CHR 0xB6, CHR 0xE9, CHR 0x97, CHR 0xB4]"

definition metadata :: "string \<Rightarrow> string \<Rightarrow> string \<Rightarrow> string" where
  "metadata title url stem =
     ''# '' @ title @ [NL, NL] @
     ''**URL**: '' @ url @ ''  '' @ [NL] @
     ''**'' @ time_label @ ''**: '' @ stem @ [NL, NL] @
     ''---'' @ [NL, NL]"

text \<open>The converter that \<^verbatim>\<open>"auto"\<close> stands for, when there is one.\<close>

definition choose_converter :: "md_env \<Rightarrow> string \<Rightarrow> string option" where
  "choose_converter env converter =
     (if converter = ''auto''
      then (if USE_MARKDOWNIFY env then Some ''markdownify''
            else if USE_HTML2TEXT env then Some ''html2text''
            else None)
      else Some converter)"

definition count_lines :: "string \<Rightarrow> nat" where
  "count_lines s = Suc (length (filter (\<lambda>c. c = NL) s))"

text \<open>
  The end of \<^verbatim>\<open>page_to_markdown\<close>, from the collapse of blank lines on: the header is
  put in front, the file is written, the statistics are counted.
\<close>

definition save_markdown ::
  "md_env \<Rightarrow> string \<Rightarrow> string \<Rightarrow> string \<Rightarrow> string \<Rightarrow> bool \<Rightarrow> string
     \<Rightarrow> (error + md_saved) \<times> (string \<times> string) option" where
  "save_markdown env file_path url title conv add_metadata converted =
     (let collapsed = collapse converted;
          markdown_content =
            (if add_metadata
             then metadata title url (path_stem (file_lib env) file_path) @ collapsed
             else collapsed)
      in case write_raises (file_lib env) file_path of
           Some e \<Rightarrow> (Inl (Caught e), None)
         | None \<Rightarrow>
            (Inr \<lparr>saved_path = path_absolute (file_lib env) file_path,
                  saved_url = url, saved_title = title,
                  saved_converter = conv,
                  saved_stats =
                    \<lparr>stat_lines = count_lines markdown_content,
                     stat_characters = length markdown_content,
                     stat_words = length (py_split markdown_content)\<rparr>\<rparr>,
             Some (file_path, markdown_content)))"

text \<open>
  The first component is the returned dictionary, the second the file written, as path
  and content. \<open>ensured\<close> and \<open>cur\<close> are what \<^verbatim>\<open>browser_manager.ensure_browser()\<close> and
  \<^verbatim>\<open>browser_manager.get_current_tab()\<close> give at the start of the tool.
\<close>

definition page_to_markdown ::
  "md_env \<Rightarrow> bool \<Rightarrow> exn + tab option \<Rightarrow> string \<Rightarrow> bool \<Rightarrow> bool \<Rightarrow> bool \<Rightarrow> string \<Rightarrow> bool
     \<Rightarrow> (error + md_saved) \<times> (string \<times> string) option" where
  "page_to_markdown env ensured cur file_path include_images remove_ads extract_main
       converter add_metadata =
     (if \<not> ensured then (Inl CannotInitBrowser, None)
      else case cur of
        Inl e \<Rightarrow> (Inl (Caught e), None)
      | Inr None \<Rightarrow> (Inl NoTabAvailable, None)
      | Inr (Some tab) \<Rightarrow>
      (case tab_url tab of Inl e \<Rightarrow> (Inl (Caught e), None) | Inr url \<Rightarrow>
      (case tab_title tab of Inl e \<Rightarrow> (Inl (Caught e), None) | Inr title \<Rightarrow>
      (case tab_html tab of Inl e \<Rightarrow> (Inl (Caught e), None) | Inr html0 \<Rightarrow>
       if html0 = [] then (Inl NoPageHtml, None)
       else
        (let html1 = (if extract_main then extract_main_content (soup_lib env) html0 else html0);
             html2 = (if remove_ads then clean_html (soup_lib env) html1 True else html1)
         in case choose_converter env converter of
              None \<Rightarrow> (Inl NoMarkdownLibrary, None)
            | Some conv \<Rightarrow>
               (if conv = ''markdownify'' then
                  (if \<not> USE_MARKDOWNIFY env then (Inl MarkdownifyNotInstalled, None)
                   else save_markdown env file_path url title conv add_metadata
                          (markdownify env html2))
                else if conv = ''html2text'' then
                  (if \<not> USE_HTML2TEXT env then (Inl Html2textNotInstalled, None)
                   else save_markdown env file_path url title conv add_metadata
                          (html2text env (\<not> include_images) html2))
                else (Inl (UnsupportedConverter conv), None)))))))"

record page_content =
  content_url :: string
  content_title :: string
  content_format :: string
  content :: string
  content_length :: nat

definition get_page_content ::
  "md_env \<Rightarrow> bool \<Rightarrow> exn + tab option \<Rightarrow> string \<Rightarrow> bool \<Rightarrow> bool \<Rightarrow> error + page_content" where
  "get_page_content env ensured cur format extract_main remove_ads =
     (if \<not> ensured then Inl CannotInitBrowser
      else case cur of
        Inl e \<Rightarrow> Inl (Caught e)
      | Inr None \<Rightarrow> Inl NoTabAvailable
      | Inr (Some tab) \<Rightarrow>
      (case tab_url tab of Inl e \<Rightarrow> Inl (Caught e) | Inr url \<Rightarrow>
      (case tab_title tab of Inl e \<Rightarrow> Inl (Caught e) | Inr title \<Rightarrow>
       (let ok = (\<lambda>fmt c. Inr \<lparr>content_url = url, content_title = title,
                               content_format = fmt, content = c,
                               content_length = length c\<rparr>);
            cleaned = (\<lambda>html0.
               (let html1 = (if extract_main then extract_main_content (soup_lib env) html0
                             else html0)
                in if remove_ads then clean_html (soup_lib env) html1 True else html1))
        in if format = ''text''
             then (case tab_text tab of Inl e \<Rightarrow> Inl (Caught e) | Inr t \<Rightarrow> ok format t)
           else if format = ''html''
             then (case tab_html tab of Inl e \<Rightarrow> Inl (Caught e)
                   | Inr html0 \<Rightarrow> ok format (cleaned html0))
           else if format = ''markdown''
             then (case tab_html tab of Inl e \<Rightarrow> Inl (Caught e)
                   | Inr html0 \<Rightarrow>
                      (let html2 = cleaned html0
                       in if USE_MARKDOWNIFY env then ok format (markdownify env html2)
                          else if USE_HTML2TEXT env then ok format (html2text env False html2)
                          else (case tab_text tab of Inl e \<Rightarrow> Inl (Caught e)
                                | Inr t \<Rightarrow> ok ''text'' t)))
           else Inl (UnsupportedFormat format)))))"


section \<open>advanced.py\<close>

text \<open>Truth of an optional string: neither \<^verbatim>\<open>None\<close> nor empty.\<close>

fun truthy_str :: "string option \<Rightarrow> bool" where
  "truthy_str None = False"
| "truthy_str (Some s) = (s \<noteq> [])"

subsection \<open>\<^verbatim>\<open>extract_table_data\<close>\<close>

definition cell_texts :: "element list \<Rightarrow> string list" where
  "cell_texts cells = map (\<lambda>cell. py_strip (el_text cell)) cells"

text \<open>The value of \<^verbatim>\<open>headers\<close> when the rows are read.\<close>

definition table_headers :: "element \<Rightarrow> string list" where
  "table_headers table =
     (let headers =
            (case ele_tag ''thead'' table of
               None \<Rightarrow> []
             | Some thead \<Rightarrow>
                 (let header_cells = eles_tag ''th'' thead;
                      header_cells = (if header_cells = [] then eles_tag ''td'' thead
                                      else header_cells)
                  in cell_texts header_cells))
      in if headers = []
         then (case ele_tag ''tr'' table of
                 None \<Rightarrow> headers
               | Some first_row \<Rightarrow>
                   (let cells = eles_tag ''th'' first_row;
                        cells = (if cells = [] then eles_tag ''td'' first_row else cells)
                    in cell_texts cells))
         else headers)"

text \<open>The value of \<^verbatim>\<open>tr_list\<close> when the loop over the rows starts.\<close>

definition table_tr_list :: "element \<Rightarrow> string list \<Rightarrow> bool \<Rightarrow> element list" where
  "table_tr_list table headers include_header =
     (case ele_tag ''tbody'' table of
        Some tbody \<Rightarrow> eles_tag ''tr'' tbody
      | None \<Rightarrow>
          (let tr_list = eles_tag ''tr'' table
           in if headers \<noteq> [] \<and> include_header \<and> tr_list \<noteq> [] then tl tr_list
              else tr_list))"

definition row_cells :: "element \<Rightarrow> string list" where
  "row_cells tr =
     (let cells = eles_tag ''td'' tr;
          cells = (if cells = [] then eles_tag ''th'' tr else cells)
      in cell_texts cells)"

definition table_rows :: "element list \<Rightarrow> string list list" where
  "table_rows tr_list = filter (\<lambda>row_data. row_data \<noteq> []) (map row_cells tr_list)"







subsection \<open>\<^verbatim>\<open>fill_form\<close>\<close>









subsection \<open>\<^verbatim>\<open>handle_infinite_scroll\<close>\<close>

record scroll_state =
  scroll_count :: nat
  last_height :: int
  last_count :: nat

text \<open>
  \<open>after_scroll i\<close> is the page as it stands after the scroll of iteration \<open>i\<close> (counted
  from 0) and the pause, or the exception that the scroll raises. \<open>scroll_loop\<close> is the
  \<^verbatim>\<open>for\<close> loop with \<open>n\<close> iterations left. The length of the pause, \<^verbatim>\<open>scroll_pause\<close>,
  decides what the page has loaded when it is measured: it is part of \<open>after_scroll\<close>.
\<close>

fun scroll_loop ::
  "(nat \<Rightarrow> exn + tab) \<Rightarrow> string option \<Rightarrow> nat \<Rightarrow> nat \<Rightarrow> scroll_state \<Rightarrow> exn + scroll_state" where
  "scroll_loop after_scroll check_selector 0 i st = Inr st"
| "scroll_loop after_scroll check_selector (Suc n) i st =
     (case after_scroll i of
        Inl e \<Rightarrow> Inl e
      | Inr tab \<Rightarrow>
         (let st = st\<lparr>scroll_count := scroll_count st + 1\<rparr>
          in if truthy_str check_selector then
               (case tab_eles tab (the check_selector) of
                  Inl e \<Rightarrow> Inl e
                | Inr elements \<Rightarrow>
                   (let current_count = length elements
                    in if current_count = last_count st then Inr st
                       else scroll_loop after_scroll check_selector n (Suc i)
                              (st\<lparr>last_count := current_count\<rparr>)))
             else
               (case tab_scrollHeight tab of
                  Inl e \<Rightarrow> Inl e
                | Inr current_height \<Rightarrow>
                   (if current_height = last_height st then Inr st
                    else scroll_loop after_scroll check_selector n (Suc i)
                           (st\<lparr>last_height := current_height\<rparr>)))))"

record scroll_result =
  result_scroll_count :: nat
  final_count :: "nat option"
  final_height :: "int option"

definition handle_infinite_scroll ::
  "(nat \<Rightarrow> exn + tab) \<Rightarrow> bool \<Rightarrow> exn + tab option \<Rightarrow> int \<Rightarrow> string option
     \<Rightarrow> error + scroll_result" where
  "handle_infinite_scroll after_scroll ensured cur max_scrolls check_selector =
     (if \<not> ensured then Inl CannotInitBrowser
      else case cur of
        Inl e \<Rightarrow> Inl (Caught e)
      | Inr None \<Rightarrow> Inl NoTabAvailable
      | Inr (Some tab) \<Rightarrow>
         (case scroll_loop after_scroll check_selector (nat max_scrolls) 0
                 \<lparr>scroll_count = 0, last_height = 0, last_count = 0\<rparr> of
            Inl e \<Rightarrow> Inl (Caught e)
          | Inr st \<Rightarrow>
              Inr \<lparr>result_scroll_count = scroll_count st,
                   final_count = (if truthy_str check_selector then Some (last_count st)
                                  else None),
                   final_height = (if \<not> truthy_str check_selector then Some (last_height st)
                                   else None)\<rparr>))"


section \<open>Notions used in the statements\<close>

text \<open>
  What one iteration of the scroll loop measures on a page: the number of elements the
  selector finds, or the scroll height. \<open>measured\<close> is the measurement of iteration \<open>k\<close>
  when that iteration can be run, \<open>previous\<close> the value it is compared with (the seed 0
  for the first iteration), \<open>unchanged\<close> says that the two are equal.
\<close>

definition measurement :: "string option \<Rightarrow> tab \<Rightarrow> exn + int" where
  "measurement check_selector tab =
     (if truthy_str check_selector
      then (case tab_eles tab (the check_selector) of
              Inl e \<Rightarrow> Inl e
            | Inr elements \<Rightarrow> Inr (int (length elements)))
      else tab_scrollHeight tab)"

definition measured :: "(nat \<Rightarrow> exn + tab) \<Rightarrow> string option \<Rightarrow> nat \<Rightarrow> int option" where
  "measured after_scroll check_selector k =
     (case after_scroll k of
        Inl e \<Rightarrow> None
      | Inr tab \<Rightarrow>
          (case measurement check_selector tab of Inl e \<Rightarrow> None | Inr v \<Rightarrow> Some v))"

definition previous :: "(nat \<Rightarrow> exn + tab) \<Rightarrow> string option \<Rightarrow> nat \<Rightarrow> int option" where
  "previous after_scroll check_selector k =
     (if k = 0 then Some 0 else measured after_scroll check_selector (k - 1))"

definition unchanged :: "(nat \<Rightarrow> exn + tab) \<Rightarrow> string option \<Rightarrow> nat \<Rightarrow> bool" where
  "unchanged after_scroll check_selector k =
     (measured after_scroll check_selector k \<noteq> None \<and>
      measured after_scroll check_selector k = previous after_scroll check_selector k)"

definition last_measure :: "string option \<Rightarrow> scroll_state \<Rightarrow> int" where
  "last_measure check_selector st =
     (if truthy_str check_selector then int (last_count st) else last_height st)"

text \<open>Pages and surroundings for the examples.\<close>

definition example_tab :: tab where
  "example_tab =
     \<lparr>tab_url = Inr ''https://example.org/'', tab_title = Inr ''Example'',
      tab_html = Inr ''<p>Hello</p>'', tab_text = Inr ''Hello'',
      tab_ele = (\<lambda>selector. Inr None), tab_eles = (\<lambda>selector. Inr []),
      tab_scrollHeight = Inr 0, tab_act = (\<lambda>a. None)\<rparr>"

definition tab_of_height :: "int \<Rightarrow> tab" where
  "tab_of_height h = example_tab\<lparr>tab_scrollHeight := Inr h\<rparr>"

text \<open>A page that is empty after the first scroll and has grown after the second.\<close>

definition late_page :: "nat \<Rightarrow> exn + tab" where
  "late_page i = Inr (tab_of_height (if i = 0 then 0 else 500))"

text \<open>A page that grows twice and then stays as it is.\<close>

definition growing_page :: "nat \<Rightarrow> exn + tab" where
  "growing_page i = Inr (tab_of_height (if i = 0 then 100 else 200))"



text \<open>
  The HTML that reaches the converter: narrowed to the main content and cleaned, as the
  options ask.
\<close>

definition prepared_html :: "md_env \<Rightarrow> bool \<Rightarrow> bool \<Rightarrow> string \<Rightarrow> string" where
  "prepared_html env extract_main remove_ads html0 =
     (let html1 = (if extract_main then extract_main_content (soup_lib env) html0 else html0)
      in if remove_ads then clean_html (soup_lib env) html1 True else html1)"

text \<open>Surroundings for the examples: an HTML library, a file system, no converter, one converter.\<close>

definition plain_bs :: bs4 where
  "plain_bs = \<lparr>bs_parse = (\<lambda>html. []), str_tag = (\<lambda>n. []), str_soup = (\<lambda>soup. [])\<rparr>"

definition plain_files :: files where
  "plain_files =
     \<lparr>path_stem = (\<lambda>p. ''out''), path_absolute = (\<lambda>p. ''/srv/'' @ p),
      write_raises = (\<lambda>p. None)\<rparr>"

definition bare_env :: md_env where
  "bare_env =
     \<lparr>USE_MARKDOWNIFY = False, USE_HTML2TEXT = False,
      markdownify = (\<lambda>html. html), html2text = (\<lambda>ignore_images html. html),
      soup_lib = plain_bs, file_lib = plain_files\<rparr>"

definition paragraph_env :: md_env where
  "paragraph_env =
     bare_env\<lparr>USE_MARKDOWNIFY := True,
              markdownify := (\<lambda>html. [NL, NL] @ ''Hello'' @ [NL, NL])\<rparr>"




text \<open>A printer for the examples, which leaves the attributes out.\<close>

fun show_node :: "node \<Rightarrow> string" where
  "show_node (Tag i n a ks) = ''<'' @ n @ ''>'' @ concat (map show_node ks) @ ''</'' @ n @ ''>''"
| "show_node (NavigableString s) = s"

definition article_then_main :: "node list" where
  "article_then_main =
     [Tag 0 ''html'' []
        [Tag 1 ''body'' []
           [Tag 2 ''article'' [] [NavigableString ''news''],
            Tag 3 ''main'' [] [NavigableString ''text'']]]]"

definition fixed_bs :: "node list \<Rightarrow> bs4" where
  "fixed_bs soup =
     \<lparr>bs_parse = (\<lambda>html. soup), str_tag = show_node,
      str_soup = (\<lambda>s. concat (map show_node s))\<rparr>"







text \<open>
  The table \<^verbatim>\<open><table><tr><th>A</th><th>B</th></tr><tr><td>1</td><td>2</td></tr></table>\<close>
  as a tree, the same table with its rows inside a \<^verbatim>\<open>tbody\<close>, and a tab on which every
  selector finds a given element.
\<close>

definition cell :: "string \<Rightarrow> string \<Rightarrow> element" where
  "cell t x = Element t x [] False []"


definition ab_table_tbody :: element where
  "ab_table_tbody =
     Element ''table'' ''A B 1 2'' [] False
       [Element ''tbody'' ''A B 1 2'' [] False
          [Element ''tr'' ''A B'' [] False [cell ''th'' ''A'', cell ''th'' ''B''],
           Element ''tr'' ''1 2'' [] False [cell ''td'' ''1'', cell ''td'' ''2'']]]"


section \<open>The collapse of blank lines\<close>

lemma lead_dropWhile: "lead (dropWhile (\<lambda>x. x = NL) cs) = 0"
  by (induction cs) (auto simp: lead_def)

lemma lead_Cons: "lead (c # cs) = (if c = NL then Suc (lead cs) else 0)"
  by (simp add: lead_def)

lemma collapse_run:
  assumes "c = NL \<and> 3 \<le> length (takeWhile (\<lambda>x. x = NL) (c # cs))"
  shows "collapse (c # cs) = NL # NL # collapse (dropWhile (\<lambda>x. x = NL) cs)"
  by (simp only: collapse.simps(2) if_P[OF assms])

lemma collapse_copy:
  assumes "\<not> (c = NL \<and> 3 \<le> length (takeWhile (\<lambda>x. x = NL) (c # cs)))"
  shows "collapse (c # cs) = c # collapse cs"
  by (simp only: collapse.simps(2) if_not_P[OF assms])

lemma lead_collapse: "lead (collapse xs) = min 2 (lead xs)"
proof (induction xs rule: collapse.induct)
  case 1
  then show ?case by (simp add: lead_def)
next
  case (2 c cs)
  let ?run = "c = NL \<and> 3 \<le> length (takeWhile (\<lambda>x. x = NL) (c # cs))"
  show ?case
  proof (cases ?run)
    case True
    have "lead (collapse (dropWhile (\<lambda>x. x = NL) cs)) = 0"
      using 2(1)[OF True] by (simp add: lead_dropWhile)
    moreover have "3 \<le> lead (c # cs)"
      unfolding lead_def using True by (rule conjunct2)
    ultimately show ?thesis
      by (simp add: collapse_run[OF True] lead_Cons)
  next
    case False
    then have small: "lead (c # cs) < 3"
      by (auto simp: lead_def)
    show ?thesis
      using 2(2)[OF False] small
      by (simp add: collapse_copy[OF False] lead_Cons split: if_splits)
  qed
qed

lemma calm_collapse: "calm (collapse xs)"
proof (induction xs rule: collapse.induct)
  case 1
  then show ?case by simp
next
  case (2 c cs)
  let ?run = "c = NL \<and> 3 \<le> length (takeWhile (\<lambda>x. x = NL) (c # cs))"
  show ?case
  proof (cases ?run)
    case True
    have "lead (collapse (dropWhile (\<lambda>x. x = NL) cs)) = 0"
      by (simp add: lead_collapse lead_dropWhile)
    then have "calm (NL # NL # collapse (dropWhile (\<lambda>x. x = NL) cs))"
      using 2(1)[OF True] by (simp add: lead_Cons)
    then show ?thesis
      by (simp only: collapse_run[OF True])
  next
    case False
    then have "lead (c # cs) < 3"
      by (auto simp: lead_def)
    then have "lead (c # collapse cs) < 3"
      by (simp add: lead_Cons lead_collapse split: if_splits)
    then have "calm (c # collapse cs)"
      using 2(2)[OF False] by simp
    then show ?thesis
      by (simp only: collapse_copy[OF False])
  qed
qed

lemma collapse_calm: "calm xs \<Longrightarrow> collapse xs = xs"
  by (induction xs) (auto simp: lead_def collapse.simps(2))

text \<open>
  Claim C7. The collapse of blank lines, which writes two newlines for every run of
  three or more, is idempotent: collapsing a collapsed text changes nothing.
\<close>

theorem collapse_idempotent: "collapse (collapse x) = collapse x"
  by (rule collapse_calm[OF calm_collapse])


section \<open>Closing the browser\<close>






section \<open>The scroll loop\<close>

lemma scroll_loop_step:
  assumes "scroll_loop after_scroll cs (Suc n) i st = Inr st'"
  shows "\<exists>v. measured after_scroll cs i = Some v \<and>
           (if v = last_measure cs st
            then st' = st\<lparr>scroll_count := scroll_count st + 1\<rparr>
            else \<exists>st2. scroll_count st2 = scroll_count st + 1 \<and> last_measure cs st2 = v \<and>
                   scroll_loop after_scroll cs n (Suc i) st2 = Inr st')"
proof -
  from assms obtain tab where t: "after_scroll i = Inr tab"
    by (cases "after_scroll i") simp_all
  let ?st1 = "st\<lparr>scroll_count := scroll_count st + 1\<rparr>"
  show ?thesis
  proof (cases "truthy_str cs")
    case True
    from assms t True obtain els where e: "tab_eles tab (the cs) = Inr els"
      by (cases "tab_eles tab (the cs)") simp_all
    have m: "measured after_scroll cs i = Some (int (length els))"
      by (simp add: measured_def measurement_def t True e)
    have l: "last_measure cs st = int (last_count st)"
      by (simp add: last_measure_def True)
    show ?thesis
    proof (cases "length els = last_count st")
      case same: True
      with assms t True e have "st' = ?st1" by simp
      with m l same show ?thesis by simp
    next
      case False
      let ?st2 = "?st1\<lparr>last_count := length els\<rparr>"
      from assms t True e False
      have "scroll_loop after_scroll cs n (Suc i) ?st2 = Inr st'" by simp
      moreover have "scroll_count ?st2 = scroll_count st + 1" by simp
      moreover have "last_measure cs ?st2 = int (length els)"
        by (simp add: last_measure_def True)
      ultimately have "\<exists>st2. scroll_count st2 = scroll_count st + 1 \<and>
          last_measure cs st2 = int (length els) \<and>
          scroll_loop after_scroll cs n (Suc i) st2 = Inr st'" by blast
      with m l False show ?thesis by simp
    qed
  next
    case nosel: False
    from assms t nosel obtain h where e: "tab_scrollHeight tab = Inr h"
      by (cases "tab_scrollHeight tab") simp_all
    have m: "measured after_scroll cs i = Some h"
      by (simp add: measured_def measurement_def t nosel e)
    have l: "last_measure cs st = last_height st"
      by (simp add: last_measure_def nosel)
    show ?thesis
    proof (cases "h = last_height st")
      case True
      with assms t nosel e have "st' = ?st1" by simp
      with m l True show ?thesis by simp
    next
      case False
      let ?st2 = "?st1\<lparr>last_height := h\<rparr>"
      from assms t nosel e False
      have "scroll_loop after_scroll cs n (Suc i) ?st2 = Inr st'" by simp
      moreover have "scroll_count ?st2 = scroll_count st + 1" by simp
      moreover have "last_measure cs ?st2 = h"
        by (simp add: last_measure_def nosel)
      ultimately have "\<exists>st2. scroll_count st2 = scroll_count st + 1 \<and>
          last_measure cs st2 = h \<and>
          scroll_loop after_scroll cs n (Suc i) st2 = Inr st'" by blast
      with m l False show ?thesis by simp
    qed
  qed
qed

lemma scroll_loop_trace:
  "scroll_loop after_scroll cs n i st = Inr st' \<Longrightarrow>
     \<exists>c\<le>n. scroll_count st' = scroll_count st + c
       \<and> (\<forall>k<c. measured after_scroll cs (i + k) \<noteq> None)
       \<and> (\<forall>k. Suc k < c \<longrightarrow>
             measured after_scroll cs (i + k) \<noteq>
               (if k = 0 then Some (last_measure cs st)
                else measured after_scroll cs (i + k - 1)))
       \<and> (c < n \<longrightarrow> 0 < c \<and>
             measured after_scroll cs (i + c - 1) =
               (if c = 1 then Some (last_measure cs st)
                else measured after_scroll cs (i + c - 2)))"
proof (induction n arbitrary: i st)
  case 0
  then show ?case by simp
next
  case (Suc n)
  from scroll_loop_step[OF Suc.prems] obtain v where
    v: "measured after_scroll cs i = Some v" and
    rest: "if v = last_measure cs st
           then st' = st\<lparr>scroll_count := scroll_count st + 1\<rparr>
           else \<exists>st2. scroll_count st2 = scroll_count st + 1 \<and> last_measure cs st2 = v \<and>
                  scroll_loop after_scroll cs n (Suc i) st2 = Inr st'"
    by blast
  show ?case
  proof (cases "v = last_measure cs st")
    case True
    with rest have "st' = st\<lparr>scroll_count := scroll_count st + 1\<rparr>" by simp
    with v True show ?thesis
      by (intro exI[of _ 1]) simp
  next
    case False
    with rest obtain st2 where
      c2: "scroll_count st2 = scroll_count st + 1" and
      l2: "last_measure cs st2 = v" and
      run: "scroll_loop after_scroll cs n (Suc i) st2 = Inr st'"
      by auto
    from Suc.IH[OF run] obtain c where
      cn: "c \<le> n" and
      cnt: "scroll_count st' = scroll_count st2 + c" and
      ran: "\<forall>k<c. measured after_scroll cs (Suc i + k) \<noteq> None" and
      diff: "\<forall>k. Suc k < c \<longrightarrow>
               measured after_scroll cs (Suc i + k) \<noteq>
                 (if k = 0 then Some (last_measure cs st2)
                  else measured after_scroll cs (Suc i + k - 1))" and
      stop: "c < n \<longrightarrow> 0 < c \<and>
               measured after_scroll cs (Suc i + c - 1) =
                 (if c = 1 then Some (last_measure cs st2)
                  else measured after_scroll cs (Suc i + c - 2))"
      by blast
    have a: "Suc c \<le> Suc n" using cn by simp
    have b: "scroll_count st' = scroll_count st + Suc c" using cnt c2 by simp
    have r: "\<forall>k<Suc c. measured after_scroll cs (i + k) \<noteq> None"
    proof (intro allI impI)
      fix k assume "k < Suc c"
      show "measured after_scroll cs (i + k) \<noteq> None"
      proof (cases k)
        case 0
        with v show ?thesis by simp
      next
        case (Suc j)
        with \<open>k < Suc c\<close> ran show ?thesis by simp
      qed
    qed
    have d: "\<forall>k. Suc k < Suc c \<longrightarrow>
               measured after_scroll cs (i + k) \<noteq>
                 (if k = 0 then Some (last_measure cs st)
                  else measured after_scroll cs (i + k - 1))"
    proof (intro allI impI)
      fix k assume k: "Suc k < Suc c"
      show "measured after_scroll cs (i + k) \<noteq>
                 (if k = 0 then Some (last_measure cs st)
                  else measured after_scroll cs (i + k - 1))"
      proof (cases k)
        case 0
        with v False show ?thesis by simp
      next
        case (Suc j)
        with k have "Suc j < c" by simp
        with diff have "measured after_scroll cs (Suc i + j) \<noteq>
                 (if j = 0 then Some (last_measure cs st2)
                  else measured after_scroll cs (Suc i + j - 1))" by blast
        with Suc l2 v show ?thesis by (cases j) simp_all
      qed
    qed
    have s: "Suc c < Suc n \<longrightarrow> 0 < Suc c \<and>
               measured after_scroll cs (i + Suc c - 1) =
                 (if Suc c = 1 then Some (last_measure cs st)
                  else measured after_scroll cs (i + Suc c - 2))"
    proof
      assume "Suc c < Suc n"
      with stop have c0: "0 < c" and
        eq: "measured after_scroll cs (Suc i + c - 1) =
                 (if c = 1 then Some (last_measure cs st2)
                  else measured after_scroll cs (Suc i + c - 2))" by auto
      from c0 obtain j where j: "c = Suc j" by (cases c) auto
      with eq l2 v show "0 < Suc c \<and>
               measured after_scroll cs (i + Suc c - 1) =
                 (if Suc c = 1 then Some (last_measure cs st)
                  else measured after_scroll cs (i + Suc c - 2))"
        by (cases j) simp_all
    qed
    from a b r d s show ?thesis by blast
  qed
qed

text \<open>
  Claim C4. When \<^verbatim>\<open>handle_infinite_scroll\<close> returns a count, the count is at most
  \<^verbatim>\<open>max_scrolls\<close>; every iteration below the count was run, with its scroll and its
  measurement; an iteration whose measurement equals the previous one is the last one;
  and a count below \<^verbatim>\<open>max_scrolls\<close> means that the last iteration measured no change.
\<close>

theorem scroll_count_is_iterations_run:
  assumes "handle_infinite_scroll after_scroll ensured cur max_scrolls cs = Inr r"
  shows "result_scroll_count r \<le> nat max_scrolls
         \<and> (\<forall>k<result_scroll_count r. measured after_scroll cs k \<noteq> None)
         \<and> (\<forall>k. unchanged after_scroll cs k \<longrightarrow> result_scroll_count r \<le> Suc k)
         \<and> (result_scroll_count r < nat max_scrolls \<longrightarrow>
              0 < result_scroll_count r \<and>
              unchanged after_scroll cs (result_scroll_count r - 1))"
proof -
  let ?st0 = "\<lparr>scroll_count = 0, last_height = 0, last_count = 0\<rparr>"
  from assms obtain st where
    run: "scroll_loop after_scroll cs (nat max_scrolls) 0 ?st0 = Inr st" and
    r: "result_scroll_count r = scroll_count st"
    by (auto simp: handle_infinite_scroll_def split: if_splits sum.splits option.splits)
  have l0: "last_measure cs ?st0 = 0" by (simp add: last_measure_def)
  from scroll_loop_trace[OF run] obtain c where
    cn: "c \<le> nat max_scrolls" and
    cnt0: "scroll_count st = scroll_count ?st0 + c" and
    ran0: "\<forall>k<c. measured after_scroll cs (0 + k) \<noteq> None" and
    diff0: "\<forall>k. Suc k < c \<longrightarrow>
             measured after_scroll cs (0 + k) \<noteq>
               (if k = 0 then Some (last_measure cs ?st0)
                else measured after_scroll cs (0 + k - 1))" and
    stop0: "c < nat max_scrolls \<longrightarrow> 0 < c \<and>
             measured after_scroll cs (0 + c - 1) =
               (if c = 1 then Some (last_measure cs ?st0)
                else measured after_scroll cs (0 + c - 2))"
    by blast
  have cnt: "scroll_count st = c" using cnt0 by simp
  have ran: "\<forall>k<c. measured after_scroll cs k \<noteq> None" using ran0 by simp
  have diff: "\<forall>k. Suc k < c \<longrightarrow>
             measured after_scroll cs k \<noteq>
               (if k = 0 then Some 0 else measured after_scroll cs (k - 1))"
  proof (intro allI impI)
    fix k assume "Suc k < c"
    with diff0 have "measured after_scroll cs (0 + k) \<noteq>
               (if k = 0 then Some (last_measure cs ?st0)
                else measured after_scroll cs (0 + k - 1))" by blast
    then show "measured after_scroll cs k \<noteq>
               (if k = 0 then Some 0 else measured after_scroll cs (k - 1))"
      by (simp add: l0 split: if_splits)
  qed
  have stop: "c < nat max_scrolls \<longrightarrow> 0 < c \<and>
             measured after_scroll cs (c - 1) =
               (if c = 1 then Some 0 else measured after_scroll cs (c - 2))"
  proof
    assume "c < nat max_scrolls"
    with stop0 have "0 < c \<and>
             measured after_scroll cs (0 + c - 1) =
               (if c = 1 then Some (last_measure cs ?st0)
                else measured after_scroll cs (0 + c - 2))" by blast
    then show "0 < c \<and>
             measured after_scroll cs (c - 1) =
               (if c = 1 then Some 0 else measured after_scroll cs (c - 2))"
      by (simp add: l0 split: if_splits)
  qed
  have three: "\<forall>k. unchanged after_scroll cs k \<longrightarrow> c \<le> Suc k"
  proof (intro allI impI)
    fix k assume u: "unchanged after_scroll cs k"
    show "c \<le> Suc k"
    proof (rule ccontr)
      assume "\<not> c \<le> Suc k"
      then have "Suc k < c" by simp
      with diff have "measured after_scroll cs k \<noteq>
               (if k = 0 then Some 0 else measured after_scroll cs (k - 1))" by blast
      with u show False by (simp add: unchanged_def previous_def)
    qed
  qed
  have four: "c < nat max_scrolls \<longrightarrow> 0 < c \<and> unchanged after_scroll cs (c - 1)"
  proof
    assume "c < nat max_scrolls"
    with stop have c0: "0 < c" and
      eq: "measured after_scroll cs (c - 1) =
               (if c = 1 then Some 0 else measured after_scroll cs (c - 2))" by auto
    from c0 ran have "measured after_scroll cs (c - 1) \<noteq> None" by simp
    moreover from c0 eq have
      "measured after_scroll cs (c - 1) = previous after_scroll cs (c - 1)"
      by (cases "c = 1") (auto simp: previous_def numeral_2_eq_2)
    ultimately show "0 < c \<and> unchanged after_scroll cs (c - 1)"
      using c0 by (simp add: unchanged_def)
  qed
  from cn ran three four r cnt show ?thesis by simp
qed

theorem scroll_count_is_iterations_run_witness:
  "handle_infinite_scroll growing_page True (Inr (Some example_tab)) 10 None
     = Inr \<lparr>result_scroll_count = 3, final_count = None, final_height = Some 200\<rparr>
   \<and> unchanged growing_page None 2
   \<and> 3 \<le> nat 10"
proof -
  have run: "handle_infinite_scroll growing_page True (Inr (Some example_tab)) 10 None
     = Inr \<lparr>result_scroll_count = 3, final_count = None, final_height = Some 200\<rparr>"
    by (simp add: handle_infinite_scroll_def growing_page_def tab_of_height_def
          example_tab_def eval_nat_numeral)
  from scroll_count_is_iterations_run[OF run] show ?thesis
    using run by simp
qed

text \<open>
  Claim C1, as the code has it. The seed 0 counts as a measurement: when the first
  measurement of a run with \<^verbatim>\<open>max_scrolls\<close> at least 1 is 0, the loop stops in its first
  iteration, and the tool returns one scroll and the final measurement 0.
\<close>

theorem first_measure_zero_stops:
  assumes "ensured" and "cur = Inr (Some tab)" and "1 \<le> max_scrolls"
    and "after_scroll 0 = Inr page" and "measurement cs page = Inr 0"
  shows "handle_infinite_scroll after_scroll ensured cur max_scrolls cs
           = Inr \<lparr>result_scroll_count = 1,
                  final_count = (if truthy_str cs then Some 0 else None),
                  final_height = (if truthy_str cs then None else Some 0)\<rparr>"
proof -
  from assms(3) obtain n where n: "nat max_scrolls = Suc n"
    by (cases "nat max_scrolls") auto
  show ?thesis
    using assms(1,2,4,5)
    by (auto simp: handle_infinite_scroll_def n measurement_def split: sum.splits if_splits)
qed

theorem first_measure_zero_stops_witness:
  "handle_infinite_scroll late_page True (Inr (Some example_tab)) 10 None
     = Inr \<lparr>result_scroll_count = 1, final_count = None, final_height = Some 0\<rparr>"
  using first_measure_zero_stops
          [of True "Inr (Some example_tab)" example_tab 10 late_page "tab_of_height 0" None]
  by (simp add: late_page_def measurement_def tab_of_height_def)

text \<open>
  On a page that measures 0 after the first scroll and 500 after the second, the
  measurement does not stay 0 over two cycles, and yet the loop stops after one.
\<close>

theorem first_cycle_converges:
  "measured late_page None 0 = Some 0 \<and> measured late_page None 1 = Some 500
   \<and> handle_infinite_scroll late_page True (Inr (Some example_tab)) 10 None
       = Inr \<lparr>result_scroll_count = 1, final_count = None, final_height = Some 0\<rparr>"
  by (simp add: handle_infinite_scroll_def late_page_def tab_of_height_def example_tab_def
        measured_def measurement_def eval_nat_numeral)


section \<open>Conversion to Markdown\<close>

text \<open>
  Claim C10. With neither conversion library, \<^verbatim>\<open>get_page_content\<close> asked for
  \<^verbatim>\<open>"markdown"\<close> on a tab whose properties can be read returns the plain text of the page
  under the format \<^verbatim>\<open>"text"\<close>, while \<^verbatim>\<open>page_to_markdown\<close> never succeeds, and with the
  converter \<^verbatim>\<open>"auto"\<close> on a page with HTML it reports that no library is installed.
\<close>

theorem markdown_without_library:
  assumes "\<not> USE_MARKDOWNIFY env" and "\<not> USE_HTML2TEXT env"
  shows "(ensured \<and> cur = Inr (Some tab) \<and> tab_url tab = Inr url \<and> tab_title tab = Inr title
            \<and> tab_html tab = Inr html \<and> tab_text tab = Inr txt
          \<longrightarrow> get_page_content env ensured cur ''markdown'' extract_main remove_ads
                = Inr \<lparr>content_url = url, content_title = title, content_format = ''text'',
                       content = txt, content_length = length txt\<rparr>)
         \<and> isl (fst (page_to_markdown env ensured cur file_path include_images remove_ads
                        extract_main converter add_metadata))
         \<and> (ensured \<and> cur = Inr (Some tab) \<and> tab_url tab = Inr url \<and> tab_title tab = Inr title
               \<and> tab_html tab = Inr html \<and> html \<noteq> []
             \<longrightarrow> fst (page_to_markdown env ensured cur file_path include_images remove_ads
                        extract_main ''auto'' add_metadata) = Inl NoMarkdownLibrary)"
proof (intro conjI impI)
  assume "ensured \<and> cur = Inr (Some tab) \<and> tab_url tab = Inr url \<and> tab_title tab = Inr title
            \<and> tab_html tab = Inr html \<and> tab_text tab = Inr txt"
  with assms show "get_page_content env ensured cur ''markdown'' extract_main remove_ads
                = Inr \<lparr>content_url = url, content_title = title, content_format = ''text'',
                       content = txt, content_length = length txt\<rparr>"
    by (simp add: get_page_content_def)
next
  show "isl (fst (page_to_markdown env ensured cur file_path include_images remove_ads
                        extract_main converter add_metadata))"
    using assms
    by (simp add: page_to_markdown_def choose_converter_def Let_def
             split: sum.split option.split)
next
  assume "ensured \<and> cur = Inr (Some tab) \<and> tab_url tab = Inr url \<and> tab_title tab = Inr title
               \<and> tab_html tab = Inr html \<and> html \<noteq> []"
  with assms show "fst (page_to_markdown env ensured cur file_path include_images remove_ads
                        extract_main ''auto'' add_metadata) = Inl NoMarkdownLibrary"
    by (simp add: page_to_markdown_def choose_converter_def Let_def)
qed

theorem markdown_without_library_witness:
  "get_page_content bare_env True (Inr (Some example_tab)) ''markdown'' True True
     = Inr \<lparr>content_url = ''https://example.org/'', content_title = ''Example'',
            content_format = ''text'', content = ''Hello'', content_length = 5\<rparr>
   \<and> fst (page_to_markdown bare_env True (Inr (Some example_tab)) ''out.md'' True True True
            ''auto'' True) = Inl NoMarkdownLibrary"
  using markdown_without_library
          [of bare_env True "Inr (Some example_tab)" example_tab "''https://example.org/''"
              "''Example''" "''<p>Hello</p>''" "''Hello''" True True "''out.md''" True
              "''auto''" True]
  by (simp add: bare_env_def example_tab_def)

text \<open>The header of the file and the collapse of blank lines.\<close>

lemma page_to_markdown_run:
  assumes ensured and "cur = Inr (Some tab)" and "tab_url tab = Inr url"
    and "tab_title tab = Inr title" and "tab_html tab = Inr html0" and "html0 \<noteq> []"
    and "choose_converter env converter = Some conv"
  shows "page_to_markdown env ensured cur file_path include_images remove_ads extract_main
           converter add_metadata =
         (if conv = ''markdownify'' then
            (if \<not> USE_MARKDOWNIFY env then (Inl MarkdownifyNotInstalled, None)
             else save_markdown env file_path url title conv add_metadata
                    (markdownify env (prepared_html env extract_main remove_ads html0)))
          else if conv = ''html2text'' then
            (if \<not> USE_HTML2TEXT env then (Inl Html2textNotInstalled, None)
             else save_markdown env file_path url title conv add_metadata
                    (html2text env (\<not> include_images)
                       (prepared_html env extract_main remove_ads html0)))
          else (Inl (UnsupportedConverter conv), None))"
  using assms by (simp add: page_to_markdown_def prepared_html_def Let_def)

text \<open>
  Claim C2, as the code has it. In every successful \<^verbatim>\<open>page_to_markdown\<close> the text written
  is the header (title as H1, URL), put in front exactly once when \<^verbatim>\<open>add_metadata\<close> is
  set, followed by the collapsed output of the converter: the collapse is applied to the
  body alone, before the header is put in front.
\<close>

theorem metadata_after_collapse:
  assumes "page_to_markdown env ensured cur file_path include_images remove_ads extract_main
             converter add_metadata = (Inr r, w)"
  shows "\<exists>tab html0.
           cur = Inr (Some tab) \<and> tab_html tab = Inr html0
           \<and> tab_url tab = Inr (saved_url r) \<and> tab_title tab = Inr (saved_title r)
           \<and> w = Some (file_path,
                   (if add_metadata
                    then metadata (saved_title r) (saved_url r)
                           (path_stem (file_lib env) file_path)
                    else [])
                   @ collapse
                       (if saved_converter r = ''markdownify''
                        then markdownify env
                               (prepared_html env extract_main remove_ads html0)
                        else html2text env (\<not> include_images)
                               (prepared_html env extract_main remove_ads html0)))"
proof -
  from assms have e: ensured
    by (simp add: page_to_markdown_def split: if_splits)
  from assms e obtain tab where c: "cur = Inr (Some tab)"
    by (cases cur) (auto simp: page_to_markdown_def split: option.splits)
  from assms e c obtain url where u: "tab_url tab = Inr url"
    by (cases "tab_url tab") (auto simp: page_to_markdown_def)
  from assms e c u obtain title where t: "tab_title tab = Inr title"
    by (cases "tab_title tab") (auto simp: page_to_markdown_def)
  from assms e c u t obtain html0 where h: "tab_html tab = Inr html0"
    by (cases "tab_html tab") (auto simp: page_to_markdown_def)
  from assms e c u t h have ne: "html0 \<noteq> []"
    by (auto simp: page_to_markdown_def split: if_splits)
  let ?h2 = "prepared_html env extract_main remove_ads html0"
  from assms e c u t h ne obtain conv where
    cv: "choose_converter env converter = Some conv"
    by (cases "choose_converter env converter")
       (auto simp: page_to_markdown_def Let_def)
  from assms have
    run: "(if conv = ''markdownify'' then
            (if \<not> USE_MARKDOWNIFY env then (Inl MarkdownifyNotInstalled, None)
             else save_markdown env file_path url title conv add_metadata
                    (markdownify env ?h2))
          else if conv = ''html2text'' then
            (if \<not> USE_HTML2TEXT env then (Inl Html2textNotInstalled, None)
             else save_markdown env file_path url title conv add_metadata
                    (html2text env (\<not> include_images) ?h2))
          else (Inl (UnsupportedConverter conv), None)) = (Inr r, w)"
    unfolding page_to_markdown_run[OF e c u t h ne cv] .
  have saved: "save_markdown env file_path url title conv add_metadata body = (Inr r, w) \<Longrightarrow>
      saved_url r = url \<and> saved_title r = title \<and> saved_converter r = conv \<and>
      w = Some (file_path,
                (if add_metadata
                 then metadata title url (path_stem (file_lib env) file_path) else [])
                @ collapse body)" for body
    by (auto simp: save_markdown_def Let_def split: option.splits)
  from run saved have
    "saved_url r = url \<and> saved_title r = title \<and> saved_converter r = conv \<and>
     w = Some (file_path,
               (if add_metadata
                then metadata title url (path_stem (file_lib env) file_path) else [])
               @ collapse (if conv = ''markdownify'' then markdownify env ?h2
                           else html2text env (\<not> include_images) ?h2))"
    by (auto split: if_splits)
  with c u t h show ?thesis by auto
qed

theorem metadata_after_collapse_witness:
  "snd (page_to_markdown paragraph_env True (Inr (Some example_tab)) ''out.md'' True False
          False ''auto'' True)
     = Some (''out.md'',
             metadata ''Example'' ''https://example.org/'' ''out''
             @ collapse ([NL, NL] @ ''Hello'' @ [NL, NL]))"
proof -
  obtain r w where run:
    "page_to_markdown paragraph_env True (Inr (Some example_tab)) ''out.md'' True False
          False ''auto'' True = (Inr r, w)" and conv: "saved_converter r = ''markdownify''"
    by (simp add: page_to_markdown_def paragraph_env_def bare_env_def example_tab_def
          choose_converter_def save_markdown_def plain_files_def Let_def)
  from metadata_after_collapse[OF run] conv show ?thesis
    unfolding run
    by (simp add: example_tab_def paragraph_env_def bare_env_def plain_files_def)
qed

text \<open>
  When the converter's output starts with a blank line, the text written has four
  newlines in a row between header and body, and is not the collapse of header and body.
\<close>

theorem metadata_not_collapsed:
  "\<not> calm (snd (the (snd (page_to_markdown paragraph_env True (Inr (Some example_tab))
                             ''out.md'' True False False ''auto'' True))))
   \<and> snd (the (snd (page_to_markdown paragraph_env True (Inr (Some example_tab))
                      ''out.md'' True False False ''auto'' True)))
       \<noteq> collapse (metadata ''Example'' ''https://example.org/'' ''out''
                   @ markdownify paragraph_env ''<p>Hello</p>'')"
  by (simp add: page_to_markdown_def paragraph_env_def bare_env_def example_tab_def
        choose_converter_def save_markdown_def plain_files_def Let_def metadata_def
        time_label_def collapse.simps(2) lead_def NL_def)


section \<open>The main content\<close>

lemma first_main_hit:
  "i < length sels \<Longrightarrow> select_one (sels ! i) soup = Some m \<Longrightarrow>
   (\<forall>j<i. select_one (sels ! j) soup = None) \<Longrightarrow> first_main soup sels = Some m"
proof (induction sels arbitrary: i)
  case Nil
  then show ?case by simp
next
  case (Cons sel sels)
  show ?case
  proof (cases i)
    case 0
    with Cons.prems show ?thesis by simp
  next
    case (Suc k)
    from Cons.prems Suc have first: "select_one sel soup = None" by auto
    from Cons.prems Suc have "k < length sels" and "select_one (sels ! k) soup = Some m"
      by simp_all
    moreover from Cons.prems Suc have "\<forall>j<k. select_one (sels ! j) soup = None"
      by (metis Suc_less_eq nth_Cons_Suc)
    ultimately have "first_main soup sels = Some m" by (rule Cons.IH)
    with first show ?thesis by simp
  qed
qed

lemma first_main_miss:
  "(\<forall>sel\<in>set sels. select_one sel soup = None) \<Longrightarrow> first_main soup sels = None"
  by (induction sels) simp_all

text \<open>
  Claim C6. \<^verbatim>\<open>_extract_main_content\<close> returns the match of the first selector, in the
  order main, article, [role=main], .main-content, #main-content, .content, #content,
  .post-content, .article-content, that matches anything; when none matches it returns
  the body, and the document as it came when there is no body. It is a total function:
  no branch of it is an error. A document with a main element yields that element,
  whatever else it contains.
\<close>

theorem extract_main_priority:
  "main_selectors =
     [TagSel ''main'', TagSel ''article'', AttrEq ''role'' ''main'',
      ClassSel ''main-content'', IdSel ''main-content'', ClassSel ''content'',
      IdSel ''content'', ClassSel ''post-content'', ClassSel ''article-content'']
   \<and> (\<forall>i<length main_selectors.
         select_one (main_selectors ! i) (bs_parse bs html) = Some m
         \<and> (\<forall>j<i. select_one (main_selectors ! j) (bs_parse bs html) = None)
         \<longrightarrow> extract_main_content bs html = str_tag bs m)
   \<and> ((\<forall>sel\<in>set main_selectors. select_one sel (bs_parse bs html) = None)
        \<longrightarrow> extract_main_content bs html =
              (case select_one (TagSel ''body'') (bs_parse bs html) of
                 Some body \<Rightarrow> str_tag bs body
               | None \<Rightarrow> html))
   \<and> (select_one (TagSel ''main'') (bs_parse bs html) = Some m
        \<longrightarrow> extract_main_content bs html = str_tag bs m)"
proof (intro conjI allI impI)
  show "main_selectors =
     [TagSel ''main'', TagSel ''article'', AttrEq ''role'' ''main'',
      ClassSel ''main-content'', IdSel ''main-content'', ClassSel ''content'',
      IdSel ''content'', ClassSel ''post-content'', ClassSel ''article-content'']"
    by (simp add: main_selectors_def)
next
  fix i
  assume "i < length main_selectors"
    and "select_one (main_selectors ! i) (bs_parse bs html) = Some m
         \<and> (\<forall>j<i. select_one (main_selectors ! j) (bs_parse bs html) = None)"
  then have "first_main (bs_parse bs html) main_selectors = Some m"
    using first_main_hit[of i main_selectors "bs_parse bs html" m] by blast
  then show "extract_main_content bs html = str_tag bs m"
    by (simp add: extract_main_content_def)
next
  assume "\<forall>sel\<in>set main_selectors. select_one sel (bs_parse bs html) = None"
  then have "first_main (bs_parse bs html) main_selectors = None"
    by (rule first_main_miss)
  then show "extract_main_content bs html =
              (case select_one (TagSel ''body'') (bs_parse bs html) of
                 Some body \<Rightarrow> str_tag bs body
               | None \<Rightarrow> html)"
    by (simp add: extract_main_content_def)
next
  assume "select_one (TagSel ''main'') (bs_parse bs html) = Some m"
  then show "extract_main_content bs html = str_tag bs m"
    by (simp add: extract_main_content_def main_selectors_def)
qed

theorem extract_main_priority_witness:
  "select_one (TagSel ''article'') article_then_main
     = Some (Tag 2 ''article'' [] [NavigableString ''news''])
   \<and> select_one (TagSel ''main'') article_then_main
     = Some (Tag 3 ''main'' [] [NavigableString ''text''])
   \<and> extract_main_content (fixed_bs article_then_main) ''<html>...</html>''
     = ''<main>text</main>''"
proof -
  have m: "select_one (TagSel ''main'') article_then_main
             = Some (Tag 3 ''main'' [] [NavigableString ''text''])"
    by (simp add: select_one_def select_def all_nodes_def article_then_main_def)
  have a: "select_one (TagSel ''article'') article_then_main
             = Some (Tag 2 ''article'' [] [NavigableString ''news''])"
    by (simp add: select_one_def select_def all_nodes_def article_then_main_def)
  from extract_main_priority
         [of "fixed_bs article_then_main" "''<html>...</html>''"
             "Tag 3 ''main'' [] [NavigableString ''text'']"]
  have "extract_main_content (fixed_bs article_then_main) ''<html>...</html>''
          = str_tag (fixed_bs article_then_main) (Tag 3 ''main'' [] [NavigableString ''text''])"
    using m by (simp add: fixed_bs_def)
  with m a show ?thesis by (simp add: fixed_bs_def)
qed


section \<open>Cleaning\<close>






















section \<open>Filling a form\<close>








section \<open>Tables\<close>








text \<open>
  When the two rows lie in a \<^verbatim>\<open>tbody\<close>, the row of \<^verbatim>\<open>th\<close> cells gives the headers and is
  among the rows too.
\<close>

lemma table_in_tbody_counts_header_row:
  "table_headers ab_table_tbody = [''A'', ''B'']
   \<and> table_rows (table_tr_list ab_table_tbody [''A'', ''B''] True)
       = [[''A'', ''B''], [''1'', ''2'']]"
  by (simp add: table_headers_def table_rows_def table_tr_list_def row_cells_def
        ab_table_tbody_def cell_def ele_tag_def eles_tag_def cell_texts_def py_strip_def
        isspace_def Let_def)

end
